theory Spec2Isabelle
  imports Main "HOL-Library.Word"
begin

unbundle bit_operations_syntax

section \<open>Allocation ledger (package ipam, allocations database)\<close>

text \<open>
  The ledger is the Go struct \<^verbatim>\<open>AllocationsDatabase\<close>: a version string and a map from
  pool id to a slice of allocations. A Go map may be \<^verbatim>\<open>nil\<close>; the field is therefore an
  optional map, \<open>None\<close> standing for the nil map. Optional string pointers
  (\<^verbatim>\<open>*string\<close>) are \<open>string option\<close>.
\<close>

record Allocation =
  CIDR :: string
  ID :: string
  Name :: string
  ParentCIDR :: "string option"
  Metadata :: "string \<rightharpoonup> string"
  Reserved :: bool
  ContiguousWith :: "string option"
  CreatedAt :: string

record AllocationsDatabase =
  Version :: string
  Allocations :: "(string \<rightharpoonup> Allocation list) option"

datatype ledger_error =
    PoolHasNoAllocations string
  | AllocationNotFound string string

text \<open>Reading a key of a Go map: a nil map and a missing key both give the zero value.\<close>

definition map_get :: "(string \<rightharpoonup> Allocation list) option \<Rightarrow> string \<Rightarrow> Allocation list option" where
  "map_get m k = (case m of None \<Rightarrow> None | Some f \<Rightarrow> f k)"

text \<open>
  \<^verbatim>\<open>AddAllocation\<close>. The clock reading \<^verbatim>\<open>time.Now().UTC().Format(time.RFC3339)\<close> is the
  explicit argument \<open>now\<close>. A nil map is replaced by a fresh one, the timestamp of the
  argument is overwritten, and the allocation is appended to the pool's slice
  (\<^verbatim>\<open>append\<close> to the nil slice of a missing key starts a new slice).
\<close>

definition AddAllocation :: "string \<Rightarrow> AllocationsDatabase \<Rightarrow> string \<Rightarrow> Allocation \<Rightarrow> AllocationsDatabase" where
  "AddAllocation now d poolID alloc =
     (let m = (case Allocations d of None \<Rightarrow> Map.empty | Some f \<Rightarrow> f);
          alloc' = alloc\<lparr>CreatedAt := now\<rparr>;
          old = (case m poolID of None \<Rightarrow> [] | Some xs \<Rightarrow> xs)
      in d\<lparr>Allocations := Some (m(poolID \<mapsto> old @ [alloc']))\<rparr>)"

text \<open>
  The loop of \<^verbatim>\<open>RemoveAllocation\<close>: it walks the pool's slice, keeps every allocation
  whose id differs and records whether one was dropped.
\<close>

fun remove_loop :: "string \<Rightarrow> Allocation list \<Rightarrow> Allocation list \<times> bool \<Rightarrow> Allocation list \<times> bool" where
  "remove_loop i [] acc = acc"
| "remove_loop i (a # as) (newAllocations, found) =
     (if ID a = i then remove_loop i as (newAllocations, True)
      else remove_loop i as (newAllocations @ [a], found))"

text \<open>
  \<^verbatim>\<open>RemoveAllocation\<close> returns the error (if any) together with the ledger after the call.
\<close>

definition RemoveAllocation :: "AllocationsDatabase \<Rightarrow> string \<Rightarrow> string \<Rightarrow> ledger_error option \<times> AllocationsDatabase" where
  "RemoveAllocation d poolID i =
     (case map_get (Allocations d) poolID of
        None \<Rightarrow> (Some (PoolHasNoAllocations poolID), d)
      | Some allocations \<Rightarrow>
          (case remove_loop i allocations ([], False) of
             (newAllocations, found) \<Rightarrow>
               if \<not> found then (Some (AllocationNotFound i poolID), d)
               else (None, d\<lparr>Allocations :=
                       map_option (\<lambda>m. m(poolID \<mapsto> newAllocations)) (Allocations d)\<rparr>)))"

section \<open>Addresses and networks (Go's package net, as the allocator uses it)\<close>

text \<open>
  \<^verbatim>\<open>net.IP\<close> is a byte slice; \<^verbatim>\<open>nil\<close> is the empty list. \<^verbatim>\<open>big.Int\<close> values are natural
  numbers: \<open>SetBytes\<close> reads a big-endian byte string, \<open>be_bytes k n\<close> writes \<open>n\<close> into
  \<open>k\<close> bytes, most significant first (the low \<open>k\<close> bytes when \<open>n\<close> is too large).
\<close>

type_synonym byte = "8 word"
type_synonym net_IP = "byte list"

definition SetBytes :: "byte list \<Rightarrow> nat" where
  "SetBytes bs = foldl (\<lambda>acc b. acc * 256 + unat b) 0 bs"

primrec be_bytes :: "nat \<Rightarrow> nat \<Rightarrow> byte list" where
  "be_bytes 0 n = []"
| "be_bytes (Suc k) n = be_bytes k (n div 256) @ [of_nat (n mod 256)]"

definition v4InV6Prefix :: "byte list" where
  "v4InV6Prefix = [0, 0, 0, 0, 0, 0, 0, 0, 0, 0, 0xff, 0xff]"

text \<open>
  \<^verbatim>\<open>IP.To4\<close>: a 4-byte address is returned as it is, a 16-byte address of the form
  \<^verbatim>\<open>::ffff:a.b.c.d\<close> gives its last four bytes, anything else gives nil.
  \<^verbatim>\<open>IP.To16\<close>: a 4-byte address becomes \<^verbatim>\<open>::ffff:a.b.c.d\<close>, a 16-byte address is
  returned as it is, anything else gives nil.
\<close>

definition To4 :: "net_IP \<Rightarrow> net_IP" where
  "To4 ip = (if length ip = 4 then ip
             else if length ip = 16 \<and> take 12 ip = v4InV6Prefix then drop 12 ip
             else [])"

definition To16 :: "net_IP \<Rightarrow> net_IP" where
  "To16 ip = (if length ip = 4 then v4InV6Prefix @ ip
              else if length ip = 16 then ip
              else [])"

text \<open>
  \<^verbatim>\<open>net.IPMask\<close>: every mask of the program is made by \<^verbatim>\<open>net.CIDRMask\<close> (directly or inside
  \<^verbatim>\<open>net.ParseCIDR\<close>), so a mask is represented by what \<^verbatim>\<open>Mask.Size()\<close> returns for it:
  the number of leading one bits and the total number of bits. The nil mask has size
  \<open>(0, 0)\<close>. \<^verbatim>\<open>net.IPNet\<close> is the struct of an address and a mask.
\<close>

record IPMask =
  Ones :: nat
  Bits :: nat

record IPNet =
  IP :: net_IP
  Mask :: IPMask

definition CIDRMask :: "int \<Rightarrow> nat \<Rightarrow> IPMask" where
  "CIDRMask n b =
     (if (b \<noteq> 32 \<and> b \<noteq> 128) \<or> n < 0 \<or> n > int b then \<lparr>Ones = 0, Bits = 0\<rparr>
      else \<lparr>Ones = nat n, Bits = b\<rparr>)"

text \<open>
  \<^verbatim>\<open>IPNet.Contains\<close>, with its helper \<^verbatim>\<open>networkNumberAndMask\<close>. The helper normalises the
  network address with \<^verbatim>\<open>To4\<close> and, for a 4-byte address under a 16-byte mask, keeps the
  last four mask bytes. \<^verbatim>\<open>Contains\<close> normalises the argument with \<^verbatim>\<open>To4\<close> too, refuses
  a length mismatch, and compares the masked bytes; for a mask of \<open>n\<close> leading ones over
  \<open>b\<close> bits, two \<open>b\<close>-bit strings agree on the masked bytes exactly when their values
  agree after dropping the low \<open>b - n\<close> bits.
\<close>

definition networkNumberAndMask :: "IPNet \<Rightarrow> net_IP \<times> IPMask option" where
  "networkNumberAndMask n =
     (let ip = (if To4 (IP n) \<noteq> [] then To4 (IP n) else IP n) in
      if To4 (IP n) = [] \<and> length (IP n) \<noteq> 16 then ([], None)
      else if Bits (Mask n) = 32 then
        (if length ip \<noteq> 4 then ([], None) else (ip, Some (Mask n)))
      else if Bits (Mask n) = 128 then
        (if length ip = 4 then (ip, Some \<lparr>Ones = Ones (Mask n) - 96, Bits = 32\<rparr>)
         else (ip, Some (Mask n)))
      else ([], None))"

definition Contains :: "IPNet \<Rightarrow> net_IP \<Rightarrow> bool" where
  "Contains n ip =
     (case networkNumberAndMask n of
        (nn, m) \<Rightarrow>
          let x = (if To4 ip \<noteq> [] then To4 ip else ip) in
          if length x \<noteq> length nn then False
          else (case m of
                  None \<Rightarrow> True
                | Some m' \<Rightarrow> SetBytes nn div 2 ^ (Bits m' - Ones m')
                             = SetBytes x div 2 ^ (Bits m' - Ones m')))"

text \<open>
  The result of \<^verbatim>\<open>net.ParseCIDR\<close> is the parameter \<open>P\<close> of every function that parses
  text: \<open>P s\<close> is \<open>None\<close> when \<open>s\<close> does not parse and the network otherwise. What
  \<^verbatim>\<open>ParseCIDR\<close> guarantees of a network: a 4-byte address with a 32-bit mask or a 16-byte
  address with a 128-bit mask, at most as many ones as bits, and an address with all
  host bits zero.
\<close>

type_synonym parser = "string \<Rightarrow> IPNet option"

definition wf_net :: "IPNet \<Rightarrow> bool" where
  "wf_net n \<longleftrightarrow>
     ((length (IP n) = 4 \<and> Bits (Mask n) = 32) \<or> (length (IP n) = 16 \<and> Bits (Mask n) = 128))
     \<and> Ones (Mask n) \<le> Bits (Mask n)
     \<and> SetBytes (IP n) mod 2 ^ (Bits (Mask n) - Ones (Mask n)) = 0"

definition wf_parser :: "parser \<Rightarrow> bool" where
  "wf_parser P \<longleftrightarrow> (\<forall>s n. P s = Some n \<longrightarrow> wf_net n)"

section \<open>Errors\<close>

text \<open>
  One constructor per error message of the allocator, carrying the values the message
  prints. \<open>Panic\<close> is a run-time panic (an index out of range, a slice bound out of
  range, an allocation that cannot succeed): the call does not return.
\<close>

datatype error =
    InvalidContainerCIDR string
  | PrefixLargerThanContainer int nat
  | PrefixExceedsAddressSize int nat
  | NoAvailableBlock int string
  | NoBlockInPool int "string \<times> error"
  | NoBlockInPoolTried int nat "(string \<times> error) list"
  | InvalidCIDR string
  | InvalidTargetCIDR string
  | NoContiguousSpace int string string string
  | Panic

section \<open>Library functions of go-cidr\<close>

text \<open>
  \<^verbatim>\<open>cidr.AddressRange\<close> returns the first and last address of a network. With as many
  ones as bits the last address is a copy of the first. Otherwise the width comes from
  the length of the address (4 or 16 bytes, a panic for any other length), the host
  length is the width minus the prefix length (an unsigned subtraction: a prefix longer
  than the width asks for a shift that cannot be carried out), and the last address is
  the first with all host bits set.

  \<^verbatim>\<open>cidr.Inc\<close> normalises with \<^verbatim>\<open>To4\<close> and adds one, the carry running off the first byte:
  the last address of the width wraps around to zero.
\<close>

definition AddressRange :: "IPNet \<Rightarrow> error + (net_IP \<times> net_IP)" where
  "AddressRange network =
     (let firstIP = IP network; prefixLen = Ones (Mask network); bits = Bits (Mask network) in
      if prefixLen = bits then Inr (firstIP, firstIP)
      else if length firstIP \<noteq> 4 \<and> length firstIP \<noteq> 16 then Inl Panic
      else let bits' = 8 * length firstIP in
           if prefixLen > bits' then Inl Panic
           else Inr (firstIP,
                     be_bytes (length firstIP) (SetBytes firstIP OR mask (bits' - prefixLen))))"

definition Inc :: "net_IP \<Rightarrow> net_IP" where
  "Inc ip =
     (let x = (if To4 ip \<noteq> [] then To4 ip else ip)
      in be_bytes (length x) ((SetBytes x + 1) mod 256 ^ length x))"

section \<open>The allocator (package ipam)\<close>

record PoolDefinition =
  PoolCIDR :: "string list"
  PoolDescription :: string
  PoolMetadata :: "string \<rightharpoonup> string"
  PoolReserved :: bool

record sortableAllocation =
  sa_network :: IPNet
  sa_alloc :: Allocation

text \<open>
  \<^verbatim>\<open>compareIPs\<close>: both operands are widened with \<^verbatim>\<open>To16\<close>; the loop runs over the indices
  of the first and reads the second at the same index, which panics when the second is
  shorter.
\<close>

fun compare_loop :: "byte list \<Rightarrow> byte list \<Rightarrow> error + int" where
  "compare_loop [] b = Inr 0"
| "compare_loop (x # a) [] = Inl Panic"
| "compare_loop (x # a) (y # b) =
     (if x < y then Inr (- 1) else if x > y then Inr 1 else compare_loop a b)"

definition compareIPs :: "net_IP \<Rightarrow> net_IP \<Rightarrow> error + int" where
  "compareIPs a b = compare_loop (To16 a) (To16 b)"

definition cloneIP :: "net_IP \<Rightarrow> net_IP" where
  "cloneIP ip = ip"

text \<open>
  \<^verbatim>\<open>alignToPrefix\<close>. The block size is \<open>1 << uint(bits - prefixLen)\<close>: a negative
  difference becomes a shift count that no machine can carry out. The sum is written
  into a 16-byte buffer at offset \<open>16 - len(ipBytes)\<close>, which panics when the sum needs
  more than 16 bytes. A 4-byte input gives \<^verbatim>\<open>result.To4()\<close>, which is nil when the sum
  left the IPv4-mapped range.
\<close>

definition alignToPrefix :: "net_IP \<Rightarrow> int \<Rightarrow> nat \<Rightarrow> error + net_IP" where
  "alignToPrefix ip prefixLen bits =
     (if int bits - prefixLen < 0 then Inl Panic
      else let ipInt = SetBytes (To16 ip);
               blockSize = 2 ^ nat (int bits - prefixLen);
               remainder = ipInt mod blockSize;
               ipInt' = (if remainder \<noteq> 0 then ipInt - remainder + blockSize else ipInt)
           in if ipInt' \<ge> 2 ^ 128 then Inl Panic
              else let result = be_bytes 16 ipInt'
                   in if length ip = 4 then Inr (To4 result) else Inr result)"

definition filterTopLevelAllocations :: "Allocation list \<Rightarrow> Allocation list" where
  "filterTopLevelAllocations allocations = filter (\<lambda>a. ParentCIDR a = None) allocations"

definition filterAllocationsInCIDR :: "parser \<Rightarrow> Allocation list \<Rightarrow> IPNet \<Rightarrow> Allocation list" where
  "filterAllocationsInCIDR P allocations container =
     filter (\<lambda>a. case P (CIDR a) of None \<Rightarrow> False
                  | Some allocNet \<Rightarrow> Contains container (IP allocNet)) allocations"

text \<open>The loop of \<^verbatim>\<open>findNextInCIDR\<close> that parses the relevant allocations, skipping invalid entries.\<close>

fun parse_sortable :: "parser \<Rightarrow> Allocation list \<Rightarrow> sortableAllocation list" where
  "parse_sortable P [] = []"
| "parse_sortable P (a # as) =
     (case P (CIDR a) of
        None \<Rightarrow> parse_sortable P as
      | Some n \<Rightarrow> \<lparr>sa_network = n, sa_alloc = a\<rparr> # parse_sortable P as)"

text \<open>
  \<^verbatim>\<open>sort.Slice\<close> with the comparator \<open>compareIPs(s[i].network.IP, s[j].network.IP) < 0\<close>.
  The library promises a sorted permutation and nothing about equal keys; the model is
  insertion sort, which keeps equal keys in their order. A panic of the comparator is a
  panic of the sort.
\<close>

fun insert_sorted :: "sortableAllocation \<Rightarrow> sortableAllocation list \<Rightarrow> error + sortableAllocation list" where
  "insert_sorted x [] = Inr [x]"
| "insert_sorted x (y # ys) =
     (case compareIPs (IP (sa_network y)) (IP (sa_network x)) of
        Inl e \<Rightarrow> Inl e
      | Inr c \<Rightarrow>
          if c < 0 then (case insert_sorted x ys of Inl e \<Rightarrow> Inl e | Inr r \<Rightarrow> Inr (y # r))
          else Inr (x # y # ys))"

fun sortSlice :: "sortableAllocation list \<Rightarrow> error + sortableAllocation list" where
  "sortSlice [] = Inr []"
| "sortSlice (x # xs) = (case sortSlice xs of Inl e \<Rightarrow> Inl e | Inr r \<Rightarrow> insert_sorted x r)"

text \<open>
  The scan of \<^verbatim>\<open>findNextInCIDR\<close>: one equation for an iteration of the loop over the sorted
  allocations, one for the code after the loop. The function returns the network
  \<^verbatim>\<open>candidateNet\<close> whose text form \<^verbatim>\<open>candidateNet.String()\<close> the Go function returns.
\<close>

fun scan :: "IPNet \<Rightarrow> string \<Rightarrow> int \<Rightarrow> nat \<Rightarrow> sortableAllocation list \<Rightarrow> net_IP \<Rightarrow> error + IPNet" where
  "scan containerNet containerCIDR prefixLen bits [] candidateIP =
     (let candidateNet = \<lparr>IP = candidateIP, Mask = CIDRMask prefixLen bits\<rparr> in
      case AddressRange candidateNet of
        Inl e \<Rightarrow> Inl e
      | Inr (_, candidateEnd) \<Rightarrow>
          (case AddressRange containerNet of
             Inl e \<Rightarrow> Inl e
           | Inr (_, containerEnd) \<Rightarrow>
               if \<not> Contains containerNet candidateIP
               then Inl (NoAvailableBlock prefixLen containerCIDR)
               else (case compareIPs candidateEnd containerEnd of
                       Inl e \<Rightarrow> Inl e
                     | Inr c \<Rightarrow> if c \<le> 0 then Inr candidateNet
                                else Inl (NoAvailableBlock prefixLen containerCIDR))))"
| "scan containerNet containerCIDR prefixLen bits (existing # rest) candidateIP =
     (let candidateNet = \<lparr>IP = candidateIP, Mask = CIDRMask prefixLen bits\<rparr> in
      case AddressRange candidateNet of
        Inl e \<Rightarrow> Inl e
      | Inr (_, candidateEnd) \<Rightarrow>
          (case compareIPs candidateEnd (IP (sa_network existing)) of
             Inl e \<Rightarrow> Inl e
           | Inr c \<Rightarrow>
               if c \<le> 0 \<and> Contains containerNet candidateIP \<and> Contains containerNet candidateEnd
               then Inr candidateNet
               else (case AddressRange (sa_network existing) of
                       Inl e \<Rightarrow> Inl e
                     | Inr (_, existingEnd) \<Rightarrow>
                         (case alignToPrefix (Inc existingEnd) prefixLen bits of
                            Inl e \<Rightarrow> Inl e
                          | Inr candidateIP' \<Rightarrow>
                              scan containerNet containerCIDR prefixLen bits rest candidateIP'))))"

definition findNextInCIDR :: "parser \<Rightarrow> string \<Rightarrow> Allocation list \<Rightarrow> int \<Rightarrow> error + IPNet" where
  "findNextInCIDR P containerCIDR existingAllocations prefixLen =
     (case P containerCIDR of
        None \<Rightarrow> Inl (InvalidContainerCIDR containerCIDR)
      | Some containerNet \<Rightarrow>
          let containerPrefixLen = Ones (Mask containerNet); bits = Bits (Mask containerNet) in
          if prefixLen < int containerPrefixLen
          then Inl (PrefixLargerThanContainer prefixLen containerPrefixLen)
          else if prefixLen > int bits
          then Inl (PrefixExceedsAddressSize prefixLen bits)
          else let relevantAllocations = filterAllocationsInCIDR P existingAllocations containerNet in
               case sortSlice (parse_sortable P relevantAllocations) of
                 Inl e \<Rightarrow> Inl e
               | Inr sortable \<Rightarrow>
                   (case alignToPrefix (cloneIP (IP containerNet)) prefixLen bits of
                      Inl e \<Rightarrow> Inl e
                    | Inr candidateIP \<Rightarrow>
                        scan containerNet containerCIDR prefixLen bits sortable candidateIP))"

definition FindNextAvailableInParent :: "parser \<Rightarrow> string \<Rightarrow> Allocation list \<Rightarrow> int \<Rightarrow> error + IPNet" where
  "FindNextAvailableInParent P parentCIDR childAllocations prefixLen =
     findNextInCIDR P parentCIDR childAllocations prefixLen"

text \<open>
  The loop of \<^verbatim>\<open>FindNextAvailableInPool\<close> over the pool's CIDRs: \<open>Inr (Inl r)\<close> is the
  early return of a success, \<open>Inr (Inr skippedReasons)\<close> the end of the loop.
\<close>

fun pool_loop :: "parser \<Rightarrow> Allocation list \<Rightarrow> int \<Rightarrow> string list \<Rightarrow> (string \<times> error) list
                    \<Rightarrow> error + (IPNet + (string \<times> error) list)" where
  "pool_loop P topLevelAllocations prefixLen [] skippedReasons = Inr (Inr skippedReasons)"
| "pool_loop P topLevelAllocations prefixLen (poolCIDRStr # rest) skippedReasons =
     (case findNextInCIDR P poolCIDRStr topLevelAllocations prefixLen of
        Inr cidrResult \<Rightarrow> Inr (Inl cidrResult)
      | Inl Panic \<Rightarrow> Inl Panic
      | Inl err \<Rightarrow> pool_loop P topLevelAllocations prefixLen rest
                     (skippedReasons @ [(poolCIDRStr, err)]))"

definition FindNextAvailableInPool :: "parser \<Rightarrow> PoolDefinition \<Rightarrow> Allocation list \<Rightarrow> int \<Rightarrow> error + IPNet" where
  "FindNextAvailableInPool P poolDef existingAllocations prefixLen =
     (let topLevelAllocations = filterTopLevelAllocations existingAllocations in
      case pool_loop P topLevelAllocations prefixLen (PoolCIDR poolDef) [] of
        Inl e \<Rightarrow> Inl e
      | Inr (Inl cidrResult) \<Rightarrow> Inr cidrResult
      | Inr (Inr skippedReasons) \<Rightarrow>
          (case skippedReasons of
             [r] \<Rightarrow> Inl (NoBlockInPool prefixLen r)
           | _ \<Rightarrow> Inl (NoBlockInPoolTried prefixLen (length (PoolCIDR poolDef)) skippedReasons)))"

text \<open>
  \<^verbatim>\<open>CalculateAvailableSpace\<close>, in 64-bit unsigned arithmetic: a shift by 64 or more gives
  zero and the sum wraps around.
\<close>

fun sum_allocated :: "parser \<Rightarrow> Allocation list \<Rightarrow> 64 word \<Rightarrow> 64 word" where
  "sum_allocated P [] allocatedAddresses = allocatedAddresses"
| "sum_allocated P (a # as) allocatedAddresses =
     (case P (CIDR a) of
        None \<Rightarrow> sum_allocated P as allocatedAddresses
      | Some allocNet \<Rightarrow>
          sum_allocated P as
            (allocatedAddresses + push_bit (Bits (Mask allocNet) - Ones (Mask allocNet)) 1))"

definition CalculateAvailableSpace :: "parser \<Rightarrow> string \<Rightarrow> Allocation list \<Rightarrow> error + 64 word" where
  "CalculateAvailableSpace P containerCIDR allocations =
     (case P containerCIDR of
        None \<Rightarrow> Inl (InvalidCIDR containerCIDR)
      | Some containerNet \<Rightarrow>
          let prefixLen = Ones (Mask containerNet); bits = Bits (Mask containerNet);
              totalAddresses = push_bit (bits - prefixLen) (1 :: 64 word);
              relevant = filterAllocationsInCIDR P allocations containerNet;
              allocatedAddresses = sum_allocated P relevant 0
          in if allocatedAddresses > totalAddresses then Inr 0
             else Inr (totalAddresses - allocatedAddresses))"

section \<open>The dotted-quad fragment of ParseCIDR\<close>

text \<open>
  A parser for the text form \<^verbatim>\<open>a.b.c.d/n\<close> alone: four decimal octets without leading
  zeros, each at most 255, and a decimal prefix length of at most 32. As
  \<^verbatim>\<open>net.ParseCIDR\<close> does, it returns the address with the host bits cleared, in four
  bytes, under a 32-bit mask. It instantiates the parameter \<open>P\<close> wherever a theorem is
  evaluated on concrete text.
\<close>

definition is_digit :: "char \<Rightarrow> bool" where
  "is_digit c \<longleftrightarrow> 48 \<le> (of_char c :: nat) \<and> (of_char c :: nat) \<le> 57"

definition dtoi :: "string \<Rightarrow> nat option" where
  "dtoi s = (if s = [] \<or> \<not> list_all is_digit s then None
             else Some (foldl (\<lambda>n c. n * 10 + (of_char c - 48)) 0 s))"

definition parse_octet :: "string \<Rightarrow> nat option" where
  "parse_octet s =
     (if length s > 3 \<or> (length s > 1 \<and> hd s = CHR ''0'') then None
      else case dtoi s of None \<Rightarrow> None | Some v \<Rightarrow> if v \<le> 255 then Some v else None)"

fun split_on :: "char \<Rightarrow> string \<Rightarrow> string list" where
  "split_on sep [] = [[]]"
| "split_on sep (c # cs) =
     (if c = sep then [] # split_on sep cs
      else (case split_on sep cs of [] \<Rightarrow> [[c]] | w # ws \<Rightarrow> (c # w) # ws))"

definition ParseCIDRv4 :: parser where
  "ParseCIDRv4 s =
     (case split_on CHR ''/'' s of
        [addr, m] \<Rightarrow>
          (case map parse_octet (split_on CHR ''.'' addr) of
             [Some a, Some b, Some c, Some d] \<Rightarrow>
               (case dtoi m of
                  None \<Rightarrow> None
                | Some n \<Rightarrow>
                    if n > 32 then None
                    else let v = ((a * 256 + b) * 256 + c) * 256 + d
                         in Some \<lparr>IP = be_bytes 4 (v - v mod 2 ^ (32 - n)),
                                  Mask = \<lparr>Ones = n, Bits = 32\<rparr>\<rparr>)
           | _ \<Rightarrow> None)
      | _ \<Rightarrow> None)"

section \<open>Vocabulary of the properties\<close>

text \<open>
  Addresses are compared as \<^verbatim>\<open>compareIPs\<close> compares them: in 16-byte form, read as an
  unsigned big-endian number, an IPv4 address \<^verbatim>\<open>a.b.c.d\<close> being \<^verbatim>\<open>::ffff:a.b.c.d\<close>.
  A network covers the addresses from \<open>first_addr\<close> to \<open>last_addr\<close>.
\<close>

definition ord3 :: "nat \<Rightarrow> nat \<Rightarrow> int" where
  "ord3 x y = (if x < y then - 1 else if x = y then 0 else 1)"

definition valid_ip :: "net_IP \<Rightarrow> bool" where
  "valid_ip ip \<longleftrightarrow> length ip = 4 \<or> length ip = 16"

definition is4 :: "net_IP \<Rightarrow> bool" where
  "is4 ip \<longleftrightarrow> To4 ip \<noteq> []"

definition addr :: "net_IP \<Rightarrow> nat" where
  "addr ip = SetBytes (To16 ip)"

definition host_bits :: "IPNet \<Rightarrow> nat" where
  "host_bits n = Bits (Mask n) - Ones (Mask n)"

definition first_addr :: "IPNet \<Rightarrow> nat" where
  "first_addr n = addr (IP n)"

definition last_addr :: "IPNet \<Rightarrow> nat" where
  "last_addr n = addr (IP n) + 2 ^ host_bits n - 1"

definition ranges_overlap :: "IPNet \<Rightarrow> IPNet \<Rightarrow> bool" where
  "ranges_overlap a b \<longleftrightarrow> first_addr a \<le> last_addr b \<and> first_addr b \<le> last_addr a"

text \<open>The networks the gap scan of \<^verbatim>\<open>findNextInCIDR\<close> works on, in the order of the ledger.\<close>

definition considered :: "parser \<Rightarrow> IPNet \<Rightarrow> Allocation list \<Rightarrow> IPNet list" where
  "considered P containerNet allocations =
     map sa_network (parse_sortable P (filterAllocationsInCIDR P allocations containerNet))"

definition mk_alloc :: "string \<Rightarrow> string \<Rightarrow> string option \<Rightarrow> Allocation" where
  "mk_alloc c i p = \<lparr>CIDR = c, ID = i, Name = i, ParentCIDR = p, Metadata = Map.empty,
     Reserved = False, ContiguousWith = None, CreatedAt = []\<rparr>"

definition demo_db :: AllocationsDatabase where
  "demo_db = \<lparr>Version = ''1.0'',
     Allocations = Some [''core'' \<mapsto> [mk_alloc ''10.0.0.0/24'' ''a1'' None,
                                        mk_alloc ''10.0.1.0/24'' ''a2'' None]]\<rparr>"

definition demo_pool :: PoolDefinition where
  "demo_pool = \<lparr>PoolCIDR = [''10.0.0.0/24'', ''10.0.1.0/24''], PoolDescription = [],
     PoolMetadata = Map.empty, PoolReserved = False\<rparr>"

definition demo_full :: "Allocation list" where
  "demo_full = [mk_alloc ''10.0.0.0/25'' ''t1'' None, mk_alloc ''10.0.0.128/25'' ''t2'' None]"

section \<open>Ledger properties\<close>

lemma remove_loop_eq:
  "remove_loop i as (new, found) =
     (new @ filter (\<lambda>a. ID a \<noteq> i) as, found \<or> (\<exists>a \<in> set as. ID a = i))"
  by (induction as arbitrary: new found) auto

text \<open>
  C7. Inserting an allocation stamps the stored record with the insert-time clock value:
  the record appended to the pool's list carries \<open>now\<close> as its creation timestamp, and the
  ledger after the call is the same for any two caller-supplied timestamps.
\<close>

theorem AddAllocation_stamps_now:
  "map_get (Allocations (AddAllocation now d poolID alloc)) poolID
     = Some ((case map_get (Allocations d) poolID of None \<Rightarrow> [] | Some xs \<Rightarrow> xs) @ [alloc\<lparr>CreatedAt := now\<rparr>])
   \<and> CreatedAt (last (the (map_get (Allocations (AddAllocation now d poolID alloc)) poolID))) = now
   \<and> AddAllocation now d poolID (alloc\<lparr>CreatedAt := t1\<rparr>) = AddAllocation now d poolID (alloc\<lparr>CreatedAt := t2\<rparr>)"
  by (simp add: AddAllocation_def map_get_def Let_def split: option.splits)

text \<open>
  C10. Whenever removal returns an error (the pool has no allocation list, or no
  allocation of the pool has the id), the ledger is returned unchanged; when it returns
  no error, the pool's list is replaced by the same list without the entries of that id
  and nothing else changes.
\<close>

theorem RemoveAllocation_error_unchanged:
  "(fst (RemoveAllocation d poolID i) \<noteq> None \<longrightarrow> snd (RemoveAllocation d poolID i) = d)
   \<and> (fst (RemoveAllocation d poolID i) \<noteq> None \<longleftrightarrow>
        (map_get (Allocations d) poolID = None
         \<or> (\<exists>as. map_get (Allocations d) poolID = Some as \<and> (\<forall>a \<in> set as. ID a \<noteq> i))))
   \<and> (fst (RemoveAllocation d poolID i) = None \<longrightarrow>
        (\<exists>m as. Allocations d = Some m \<and> m poolID = Some as
           \<and> snd (RemoveAllocation d poolID i)
               = d\<lparr>Allocations := Some (m(poolID \<mapsto> filter (\<lambda>a. ID a \<noteq> i) as))\<rparr>))"
  by (auto simp: RemoveAllocation_def remove_loop_eq map_get_def split: option.splits)

theorem RemoveAllocation_error_unchanged_witness:
  "fst (RemoveAllocation demo_db ''core'' ''zz'') \<noteq> None
   \<and> snd (RemoveAllocation demo_db ''core'' ''zz'') = demo_db
   \<and> fst (RemoveAllocation demo_db ''core'' ''a1'') = None
   \<and> map_get (Allocations (snd (RemoveAllocation demo_db ''core'' ''a1''))) ''core''
       = Some [mk_alloc ''10.0.1.0/24'' ''a2'' None]"
proof -
  have e: "fst (RemoveAllocation demo_db ''core'' ''zz'') \<noteq> None"
    by (simp add: RemoveAllocation_def demo_db_def mk_alloc_def map_get_def)
  have r: "fst (RemoveAllocation demo_db ''core'' ''a1'') = None"
    by (simp add: RemoveAllocation_def demo_db_def mk_alloc_def map_get_def)
  from RemoveAllocation_error_unchanged [of demo_db "''core''" "''zz''"] e
  have u: "snd (RemoveAllocation demo_db ''core'' ''zz'') = demo_db" by blast
  from RemoveAllocation_error_unchanged [of demo_db "''core''" "''a1''"] r
  obtain m as where m: "Allocations demo_db = Some m" "m ''core'' = Some as"
    and s: "snd (RemoveAllocation demo_db ''core'' ''a1'')
              = demo_db\<lparr>Allocations := Some (m(''core'' \<mapsto> filter (\<lambda>a. ID a \<noteq> ''a1'') as))\<rparr>"
    by blast
  from m have "as = [mk_alloc ''10.0.0.0/24'' ''a1'' None, mk_alloc ''10.0.1.0/24'' ''a2'' None]"
    by (auto simp: demo_db_def)
  with s have "map_get (Allocations (snd (RemoveAllocation demo_db ''core'' ''a1''))) ''core''
       = Some [mk_alloc ''10.0.1.0/24'' ''a2'' None]"
    by (simp add: map_get_def mk_alloc_def)
  with e r u show ?thesis by simp
qed

section \<open>Big-endian byte strings\<close>

lemma SetBytes_foldl:
  "foldl (\<lambda>acc b. acc * 256 + unat b) a bs = a * 256 ^ length bs + SetBytes bs"
  unfolding SetBytes_def
proof (induction bs arbitrary: a)
  case Nil then show ?case by simp
next
  case (Cons x xs)
  have "foldl (\<lambda>acc b. acc * 256 + unat b) (a * 256 + unat x) xs
          = (a * 256 + unat x) * 256 ^ length xs + foldl (\<lambda>acc b. acc * 256 + unat b) 0 xs"
    by (rule Cons.IH)
  moreover have "foldl (\<lambda>acc b. acc * 256 + unat b) (unat x) xs
          = unat x * 256 ^ length xs + foldl (\<lambda>acc b. acc * 256 + unat b) 0 xs"
    by (rule Cons.IH)
  ultimately show ?case by (simp add: add_mult_distrib)
qed

lemma SetBytes_Nil [simp]: "SetBytes [] = 0"
  by (simp add: SetBytes_def)

lemma SetBytes_Cons: "SetBytes (x # xs) = unat x * 256 ^ length xs + SetBytes xs"
  using SetBytes_foldl [of "unat x" xs] by (simp add: SetBytes_def)

lemma SetBytes_ev: "SetBytes (x # xs) = foldl (\<lambda>acc b. acc * 256 + unat b) (unat x) xs"
  by (simp add: SetBytes_def)

lemma SetBytes_append: "SetBytes (xs @ ys) = SetBytes xs * 256 ^ length ys + SetBytes ys"
  by (induction xs) (simp_all add: SetBytes_Cons power_add algebra_simps)

lemma SetBytes_lt: "SetBytes bs < 256 ^ length bs"
proof (induction bs)
  case Nil then show ?case by simp
next
  case (Cons x xs)
  have "unat x \<le> 255" using unsigned_less [of x, where ?'a = nat] by simp
  then have "unat x * 256 ^ length xs \<le> 255 * 256 ^ length xs"
    by (rule mult_le_mono1)
  moreover have "(256::nat) ^ length (x # xs) = 255 * 256 ^ length xs + 256 ^ length xs"
    by simp
  ultimately show ?case using Cons unfolding SetBytes_Cons by linarith
qed

lemma length_be_bytes [simp]: "length (be_bytes k n) = k"
  by (induction k arbitrary: n) simp_all

lemma SetBytes_be_bytes: "SetBytes (be_bytes k n) = n mod 256 ^ k"
proof (induction k arbitrary: n)
  case 0 then show ?case by simp
next
  case (Suc k)
  have "unat (of_nat (n mod 256) :: byte) = n mod 256"
    by (simp add: unat_of_nat)
  then show ?case
    by (simp add: SetBytes_append Suc SetBytes_Cons mod_mult2_eq algebra_simps)
qed

lemma be_bytes_SetBytes: "be_bytes (length bs) (SetBytes bs) = bs"
proof (induction bs rule: rev_induct)
  case Nil then show ?case by simp
next
  case (snoc x xs)
  have "unat x < 256" using unsigned_less [of x, where ?'a = nat] by simp
  then show ?case by (simp add: SetBytes_append SetBytes_Cons snoc)
qed

lemma SetBytes_inj: "length xs = length ys \<Longrightarrow> SetBytes xs = SetBytes ys \<Longrightarrow> xs = ys"
  by (metis be_bytes_SetBytes)

lemma be_bytes_numeral:
  "be_bytes (numeral k) n = be_bytes (pred_numeral k) (n div 256) @ [of_nat (n mod 256)]"
proof -
  have "be_bytes (Suc (pred_numeral k)) n
          = be_bytes (pred_numeral k) (n div 256) @ [of_nat (n mod 256)]"
    by (rule be_bytes.simps)
  then show ?thesis by (simp only: numeral_eq_Suc [symmetric])
qed

lemma be_bytes_1: "be_bytes 1 n = [of_nat (n mod 256)]" "be_bytes (Suc 0) n = [of_nat (n mod 256)]"
  by simp_all

lemma or_mask_nat: "(x::nat) OR mask h = x - x mod 2 ^ h + (2 ^ h - 1)"
proof -
  have d: "x - x mod 2 ^ h = push_bit h (drop_bit h x)"
    by (simp add: push_bit_eq_mult drop_bit_eq_div minus_mod_eq_mult_div)
  have "push_bit h (drop_bit h x) AND mask h = (0::nat)"
    by (rule bit_eqI) (auto simp: bit_simps)
  then have "push_bit h (drop_bit h x) + mask h = push_bit h (drop_bit h x) OR (mask h :: nat)"
    by (rule disjunctive_add_eq_or)
  moreover have "push_bit h (drop_bit h x) OR (mask h :: nat) = x OR mask h"
    by (rule bit_eqI) (auto simp: bit_simps)
  ultimately show ?thesis by (simp add: d mask_eq_exp_minus_1)
qed

section \<open>Comparing addresses\<close>

lemma compare_loop_eq:
  "length a = length b \<Longrightarrow> compare_loop a b = Inr (ord3 (SetBytes a) (SetBytes b))"
proof (induction a b rule: list_induct2)
  case Nil then show ?case by (simp add: ord3_def)
next
  case (Cons x xs y ys)
  have bx: "SetBytes xs < 256 ^ length xs" and by': "SetBytes ys < 256 ^ length xs"
    using SetBytes_lt [of xs] SetBytes_lt [of ys] Cons.hyps by simp_all
  show ?case
  proof (cases "x < y")
    case True
    then have "unat x + 1 \<le> unat y" by (simp add: word_less_nat_alt)
    then have "(unat x + 1) * 256 ^ length xs \<le> unat y * 256 ^ length xs"
      by (rule mult_le_mono1)
    with bx have "SetBytes (x # xs) < SetBytes (y # ys)"
      by (simp add: SetBytes_Cons Cons.hyps [symmetric] algebra_simps)
    with True show ?thesis by (simp add: ord3_def)
  next
    case False
    show ?thesis
    proof (cases "y < x")
      case True
      then have "unat y + 1 \<le> unat x" by (simp add: word_less_nat_alt)
      then have "(unat y + 1) * 256 ^ length xs \<le> unat x * 256 ^ length xs"
        by (rule mult_le_mono1)
      with by' have "SetBytes (y # ys) < SetBytes (x # xs)"
        by (simp add: SetBytes_Cons Cons.hyps [symmetric] algebra_simps)
      with True False show ?thesis by (simp add: ord3_def)
    next
      case F2: False
      with False have "x = y" by simp
      with Cons False show ?thesis by (simp add: SetBytes_Cons ord3_def)
    qed
  qed
qed

lemma ord3_shift: "ord3 (c + x) (c + y) = ord3 x y"
  by (simp add: ord3_def)

lemma length_To16: "valid_ip a \<Longrightarrow> length (To16 a) = 16"
  by (auto simp: To16_def v4InV6Prefix_def valid_ip_def)

lemma compareIPs_addr:
  "valid_ip a \<Longrightarrow> valid_ip b \<Longrightarrow> compareIPs a b = Inr (ord3 (addr a) (addr b))"
  unfolding compareIPs_def addr_def by (intro compare_loop_eq) (simp add: length_To16)

text \<open>
  C8, as the code has it. For operands of 4 or 16 bytes \<^verbatim>\<open>compareIPs\<close> always returns an
  ordering: \<open>-1\<close>, \<open>0\<close> or \<open>1\<close> by the unsigned big-endian order of the operands widened
  to 16 bytes, a 4-byte operand being widened to its IPv4-mapped form. For operands of
  the same width this is the unsigned most-significant-byte-first order of the operands
  themselves. Operands of different widths are compared, not refused.
\<close>

theorem compareIPs_orders_widened:
  assumes "valid_ip a" and "valid_ip b"
  shows "compareIPs a b = Inr (ord3 (SetBytes (To16 a)) (SetBytes (To16 b)))
         \<and> (length a = length b \<longrightarrow> compareIPs a b = Inr (ord3 (SetBytes a) (SetBytes b)))"
proof -
  have 1: "compareIPs a b = Inr (ord3 (SetBytes (To16 a)) (SetBytes (To16 b)))"
    using compareIPs_addr [OF assms] by (simp add: addr_def)
  have "length a = length b \<Longrightarrow>
          ord3 (SetBytes (To16 a)) (SetBytes (To16 b)) = ord3 (SetBytes a) (SetBytes b)"
    using assms by (auto simp: To16_def SetBytes_append ord3_shift valid_ip_def)
  with 1 show ?thesis by simp
qed

theorem compareIPs_orders_widened_witness:
  "valid_ip [10, 0, 0, 1] \<and> valid_ip [10, 0, 1, 0]
   \<and> compareIPs [10, 0, 0, 1] [10, 0, 1, 0] = Inr (- 1)"
proof -
  have v: "valid_ip [10, 0, 0, 1]" "valid_ip [10, 0, 1, 0]"
    by (simp_all add: valid_ip_def)
  from compareIPs_orders_widened [OF v]
  have "length [10, 0, 0, 1 :: byte] = length [10, 0, 1, 0 :: byte] \<longrightarrow>
        compareIPs [10, 0, 0, 1] [10, 0, 1, 0] = Inr (ord3 (SetBytes [10, 0, 0, 1]) (SetBytes [10, 0, 1, 0]))"
    by (rule conjunct2)
  then have "compareIPs [10, 0, 0, 1] [10, 0, 1, 0] = Inr (ord3 (SetBytes [10, 0, 0, 1]) (SetBytes [10, 0, 1, 0]))"
    by simp
  then show ?thesis using v by (simp add: SetBytes_ev ord3_def)
qed

text \<open>
  The claim as stated fails: a 4-byte and a 16-byte operand do not share a width, and the
  call returns an ordering.
\<close>

theorem compareIPs_mixed_width_counterexample:
  "length [10, 0, 0, 1 :: byte] \<noteq> length [0, 0, 0, 0, 0, 0, 0, 0, 0, 0, 0, 0, 0, 0, 0, 1 :: byte]
   \<and> compareIPs [10, 0, 0, 1] [0, 0, 0, 0, 0, 0, 0, 0, 0, 0, 0, 0, 0, 0, 0, 1] = Inr 1"
  by (simp add: compareIPs_def To16_def v4InV6Prefix_def)

section \<open>Evaluation on concrete text\<close>

lemmas parse_ev = ParseCIDRv4_def dtoi_def parse_octet_def is_digit_def be_bytes_numeral be_bytes_1

lemmas contains_ev = Contains_def networkNumberAndMask_def To4_def SetBytes_ev

lemmas range_ev = AddressRange_def SetBytes_ev or_mask_nat be_bytes_numeral be_bytes_1

lemmas inc_ev = Inc_def To4_def SetBytes_ev be_bytes_numeral be_bytes_1

lemmas align_ev = alignToPrefix_def To16_def To4_def v4InV6Prefix_def SetBytes_ev
  be_bytes_numeral be_bytes_1

lemmas compare_ev = compareIPs_def To16_def v4InV6Prefix_def

lemma parse_10_0_0_0_24:
  "ParseCIDRv4 ''10.0.0.0/24'' = Some \<lparr>IP = [10, 0, 0, 0], Mask = \<lparr>Ones = 24, Bits = 32\<rparr>\<rparr>"
  by (simp add: parse_ev)

lemma parse_10_0_1_0_24:
  "ParseCIDRv4 ''10.0.1.0/24'' = Some \<lparr>IP = [10, 0, 1, 0], Mask = \<lparr>Ones = 24, Bits = 32\<rparr>\<rparr>"
  by (simp add: parse_ev)

lemma parse_10_0_0_0_25:
  "ParseCIDRv4 ''10.0.0.0/25'' = Some \<lparr>IP = [10, 0, 0, 0], Mask = \<lparr>Ones = 25, Bits = 32\<rparr>\<rparr>"
  by (simp add: parse_ev)

lemma parse_10_0_0_128_25:
  "ParseCIDRv4 ''10.0.0.128/25'' = Some \<lparr>IP = [10, 0, 0, 128], Mask = \<lparr>Ones = 25, Bits = 32\<rparr>\<rparr>"
  by (simp add: parse_ev)

lemma parse_10_0_0_0_16:
  "ParseCIDRv4 ''10.0.0.0/16'' = Some \<lparr>IP = [10, 0, 0, 0], Mask = \<lparr>Ones = 16, Bits = 32\<rparr>\<rparr>"
  by (simp add: parse_ev)

lemma parse_10_0_0_0_32:
  "ParseCIDRv4 ''10.0.0.0/32'' = Some \<lparr>IP = [10, 0, 0, 0], Mask = \<lparr>Ones = 32, Bits = 32\<rparr>\<rparr>"
  by (simp add: parse_ev)

lemmas parsed = parse_10_0_0_0_24 parse_10_0_1_0_24 parse_10_0_0_0_25 parse_10_0_0_128_25
  parse_10_0_0_0_16 parse_10_0_0_0_32

lemma range_10_0_0_0_24:
  "AddressRange \<lparr>IP = [10, 0, 0, 0], Mask = \<lparr>Ones = 24, Bits = 32\<rparr>\<rparr> = Inr ([10, 0, 0, 0], [10, 0, 0, 255])"
  by (simp add: range_ev)

lemma range_10_0_0_0_25:
  "AddressRange \<lparr>IP = [10, 0, 0, 0], Mask = \<lparr>Ones = 25, Bits = 32\<rparr>\<rparr> = Inr ([10, 0, 0, 0], [10, 0, 0, 127])"
  by (simp add: range_ev)

lemma range_10_0_0_128_25:
  "AddressRange \<lparr>IP = [10, 0, 0, 128], Mask = \<lparr>Ones = 25, Bits = 32\<rparr>\<rparr> = Inr ([10, 0, 0, 128], [10, 0, 0, 255])"
  by (simp add: range_ev)

lemma range_10_0_1_0_25:
  "AddressRange \<lparr>IP = [10, 0, 1, 0], Mask = \<lparr>Ones = 25, Bits = 32\<rparr>\<rparr> = Inr ([10, 0, 1, 0], [10, 0, 1, 127])"
  by (simp add: range_ev)

lemma range_10_0_1_0_24:
  "AddressRange \<lparr>IP = [10, 0, 1, 0], Mask = \<lparr>Ones = 24, Bits = 32\<rparr>\<rparr> = Inr ([10, 0, 1, 0], [10, 0, 1, 255])"
  by (simp add: range_ev)

lemmas ranges = range_10_0_0_0_24 range_10_0_0_0_25 range_10_0_0_128_25 range_10_0_1_0_25
  range_10_0_1_0_24

lemma demo_steps:
  "alignToPrefix [10, 0, 0, 0] 25 32 = Inr [10, 0, 0, 0]"
  "alignToPrefix [10, 0, 1, 0] 25 32 = Inr [10, 0, 1, 0]"
  "alignToPrefix (Inc [10, 0, 0, 127]) 25 32 = Inr [10, 0, 0, 128]"
  "alignToPrefix (Inc [10, 0, 0, 255]) 25 32 = Inr [10, 0, 1, 0]"
  "compareIPs [10, 0, 0, 127] [10, 0, 0, 0] = Inr 1"
  "compareIPs [10, 0, 0, 255] [10, 0, 0, 128] = Inr 1"
  "compareIPs [10, 0, 0, 128] [10, 0, 0, 0] = Inr 1"
  "compareIPs [10, 0, 1, 127] [10, 0, 1, 255] = Inr (- 1)"
  "\<not> Contains \<lparr>IP = [10, 0, 0, 0], Mask = \<lparr>Ones = 24, Bits = 32\<rparr>\<rparr> [10, 0, 1, 0]"
  "Contains \<lparr>IP = [10, 0, 0, 0], Mask = \<lparr>Ones = 24, Bits = 32\<rparr>\<rparr> [10, 0, 0, 0]"
  "Contains \<lparr>IP = [10, 0, 0, 0], Mask = \<lparr>Ones = 24, Bits = 32\<rparr>\<rparr> [10, 0, 0, 128]"
  "Contains \<lparr>IP = [10, 0, 1, 0], Mask = \<lparr>Ones = 24, Bits = 32\<rparr>\<rparr> [10, 0, 1, 0]"
  "\<not> Contains \<lparr>IP = [10, 0, 1, 0], Mask = \<lparr>Ones = 24, Bits = 32\<rparr>\<rparr> [10, 0, 0, 0]"
  "\<not> Contains \<lparr>IP = [10, 0, 1, 0], Mask = \<lparr>Ones = 24, Bits = 32\<rparr>\<rparr> [10, 0, 0, 128]"
  by (simp_all add: align_ev inc_ev compare_ev contains_ev)

lemma demo_first_range_full:
  "findNextInCIDR ParseCIDRv4 ''10.0.0.0/24'' (filterTopLevelAllocations demo_full) 25
     = Inl (NoAvailableBlock 25 ''10.0.0.0/24'')"
  by (simp add: findNextInCIDR_def filterAllocationsInCIDR_def filterTopLevelAllocations_def
      demo_full_def mk_alloc_def parsed ranges demo_steps CIDRMask_def cloneIP_def)

lemma demo_second_range_free:
  "findNextInCIDR ParseCIDRv4 ''10.0.1.0/24'' (filterTopLevelAllocations demo_full) 25
     = Inr \<lparr>IP = [10, 0, 1, 0], Mask = \<lparr>Ones = 25, Bits = 32\<rparr>\<rparr>"
  by (simp add: findNextInCIDR_def filterAllocationsInCIDR_def filterTopLevelAllocations_def
      demo_full_def mk_alloc_def parsed ranges demo_steps CIDRMask_def cloneIP_def)

lemma demo_too_large:
  "findNextInCIDR ParseCIDRv4 ''10.0.0.0/24'' (filterTopLevelAllocations demo_full) 16
     = Inl (PrefixLargerThanContainer 16 24)"
  "findNextInCIDR ParseCIDRv4 ''10.0.1.0/24'' (filterTopLevelAllocations demo_full) 16
     = Inl (PrefixLargerThanContainer 16 24)"
  by (simp_all add: findNextInCIDR_def parsed)

section \<open>Pool-mode allocation\<close>

lemma pool_loop_all_rejected:
  assumes "\<forall>c \<in> set cs. \<exists>e. findNextInCIDR P c tops p = Inl e \<and> e \<noteq> Panic"
  shows "pool_loop P tops p cs skipped
           = Inr (Inr (skipped @ map (\<lambda>c. (c, projl (findNextInCIDR P c tops p))) cs))"
  using assms
proof (induction cs arbitrary: skipped)
  case Nil then show ?case by simp
next
  case (Cons c cs)
  from Cons.prems obtain e where e: "findNextInCIDR P c tops p = Inl e" "e \<noteq> Panic" by auto
  have "pool_loop P tops p (c # cs) skipped = pool_loop P tops p cs (skipped @ [(c, e)])"
    using e by (cases e) simp_all
  also have "\<dots> = Inr (Inr ((skipped @ [(c, e)]) @ map (\<lambda>c. (c, projl (findNextInCIDR P c tops p))) cs))"
    using Cons.prems by (intro Cons.IH) simp
  finally show ?case using e by simp
qed

lemma pool_loop_first_success:
  assumes "\<forall>c' \<in> set pre. \<exists>e. findNextInCIDR P c' tops p = Inl e \<and> e \<noteq> Panic"
    and "findNextInCIDR P c tops p = Inr r"
  shows "pool_loop P tops p (pre @ c # post) skipped = Inr (Inl r)"
  using assms
proof (induction pre arbitrary: skipped)
  case Nil then show ?case by simp
next
  case (Cons x pre)
  from Cons.prems obtain e where e: "findNextInCIDR P x tops p = Inl e" "e \<noteq> Panic" by auto
  have "pool_loop P tops p ((x # pre) @ c # post) skipped
          = pool_loop P tops p (pre @ c # post) (skipped @ [(x, e)])"
    using e by (cases e) simp_all
  with Cons show ?case by simp
qed

lemma pool_loop_success_origin:
  assumes "pool_loop P tops p cs skipped = Inr (Inl r)"
  shows "\<exists>pre c post. cs = pre @ c # post
           \<and> (\<forall>c' \<in> set pre. \<exists>e. findNextInCIDR P c' tops p = Inl e \<and> e \<noteq> Panic)
           \<and> findNextInCIDR P c tops p = Inr r"
  using assms
proof (induction cs arbitrary: skipped)
  case Nil then show ?case by simp
next
  case (Cons x cs)
  show ?case
  proof (cases "findNextInCIDR P x tops p")
    case (Inr r')
    with Cons.prems have "r' = r" by simp
    with Inr have "x # cs = [] @ x # cs \<and> findNextInCIDR P x tops p = Inr r" by simp
    then show ?thesis by (metis empty_iff set_empty2)
  next
    case (Inl e)
    show ?thesis
    proof (cases "e = Panic")
      case True
      with Inl Cons.prems show ?thesis by simp
    next
      case False
      with Inl Cons.prems have "pool_loop P tops p cs (skipped @ [(x, e)]) = Inr (Inl r)"
        by (cases e) simp_all
      from Cons.IH [OF this] obtain pre c post where
        "cs = pre @ c # post"
        "\<forall>c' \<in> set pre. \<exists>e. findNextInCIDR P c' tops p = Inl e \<and> e \<noteq> Panic"
        "findNextInCIDR P c tops p = Inr r" by blast
      with Inl False have "x # cs = (x # pre) @ c # post
        \<and> (\<forall>c' \<in> set (x # pre). \<exists>e. findNextInCIDR P c' tops p = Inl e \<and> e \<noteq> Panic)
        \<and> findNextInCIDR P c tops p = Inr r" by simp
      then show ?thesis by blast
    qed
  qed
qed

text \<open>
  C6. The pool search runs the single-range search on each range of the pool in the
  listed order, against the tops-level allocations. A range that succeeds after every
  earlier range was rejected gives the result, and every success arises so. When every
  range of a pool of more than one range is rejected, the error carries the number of
  ranges and, for every range in order, the range and its own rejection.
\<close>

theorem FindNextAvailableInPool_ranges_in_order:
  "(\<forall>pre c post r.
      PoolCIDR poolDef = pre @ c # post
      \<and> (\<forall>c' \<in> set pre. \<exists>e. findNextInCIDR P c' (filterTopLevelAllocations existing) p = Inl e \<and> e \<noteq> Panic)
      \<and> findNextInCIDR P c (filterTopLevelAllocations existing) p = Inr r
      \<longrightarrow> FindNextAvailableInPool P poolDef existing p = Inr r)
   \<and> (\<forall>r. FindNextAvailableInPool P poolDef existing p = Inr r \<longrightarrow>
        (\<exists>pre c post. PoolCIDR poolDef = pre @ c # post
           \<and> (\<forall>c' \<in> set pre. \<exists>e. findNextInCIDR P c' (filterTopLevelAllocations existing) p = Inl e \<and> e \<noteq> Panic)
           \<and> findNextInCIDR P c (filterTopLevelAllocations existing) p = Inr r))
   \<and> (length (PoolCIDR poolDef) > 1
       \<and> (\<forall>c \<in> set (PoolCIDR poolDef). \<exists>e. findNextInCIDR P c (filterTopLevelAllocations existing) p = Inl e \<and> e \<noteq> Panic)
       \<longrightarrow> FindNextAvailableInPool P poolDef existing p
            = Inl (NoBlockInPoolTried p (length (PoolCIDR poolDef))
                    (map (\<lambda>c. (c, projl (findNextInCIDR P c (filterTopLevelAllocations existing) p)))
                         (PoolCIDR poolDef))))"
proof (intro conjI allI impI)
  fix pre c post r
  assume "PoolCIDR poolDef = pre @ c # post
      \<and> (\<forall>c' \<in> set pre. \<exists>e. findNextInCIDR P c' (filterTopLevelAllocations existing) p = Inl e \<and> e \<noteq> Panic)
      \<and> findNextInCIDR P c (filterTopLevelAllocations existing) p = Inr r"
  then show "FindNextAvailableInPool P poolDef existing p = Inr r"
    by (simp add: FindNextAvailableInPool_def pool_loop_first_success)
next
  fix r
  assume a: "FindNextAvailableInPool P poolDef existing p = Inr r"
  then have "pool_loop P (filterTopLevelAllocations existing) p (PoolCIDR poolDef) [] = Inr (Inl r)"
    by (auto simp: FindNextAvailableInPool_def Let_def split: sum.splits list.splits)
  then show "\<exists>pre c post. PoolCIDR poolDef = pre @ c # post
           \<and> (\<forall>c' \<in> set pre. \<exists>e. findNextInCIDR P c' (filterTopLevelAllocations existing) p = Inl e \<and> e \<noteq> Panic)
           \<and> findNextInCIDR P c (filterTopLevelAllocations existing) p = Inr r"
    by (rule pool_loop_success_origin)
next
  assume a: "length (PoolCIDR poolDef) > 1
       \<and> (\<forall>c \<in> set (PoolCIDR poolDef). \<exists>e. findNextInCIDR P c (filterTopLevelAllocations existing) p = Inl e \<and> e \<noteq> Panic)"
  then have l: "pool_loop P (filterTopLevelAllocations existing) p (PoolCIDR poolDef) []
      = Inr (Inr (map (\<lambda>c. (c, projl (findNextInCIDR P c (filterTopLevelAllocations existing) p))) (PoolCIDR poolDef)))"
    using pool_loop_all_rejected [of "PoolCIDR poolDef" P "filterTopLevelAllocations existing" p "[]"]
    by simp
  from a obtain x y zs where "PoolCIDR poolDef = x # y # zs"
    by (cases "PoolCIDR poolDef"; cases "tl (PoolCIDR poolDef)") auto
  then have "\<exists>u v ws. map (\<lambda>c. (c, projl (findNextInCIDR P c (filterTopLevelAllocations existing) p)))
                 (PoolCIDR poolDef) = u # v # ws"
    by simp
  then show "FindNextAvailableInPool P poolDef existing p
            = Inl (NoBlockInPoolTried p (length (PoolCIDR poolDef))
                    (map (\<lambda>c. (c, projl (findNextInCIDR P c (filterTopLevelAllocations existing) p)))
                         (PoolCIDR poolDef)))"
    unfolding FindNextAvailableInPool_def Let_def l by auto
qed

text \<open>
  C9. Removing every entry with a parent reference from the existing list does not
  change the result of pool-mode allocation.
\<close>

theorem FindNextAvailableInPool_top_level_only:
  "FindNextAvailableInPool P poolDef (filter (\<lambda>a. ParentCIDR a = None) existing) prefixLen
     = FindNextAvailableInPool P poolDef existing prefixLen"
  by (simp add: FindNextAvailableInPool_def filterTopLevelAllocations_def)

theorem FindNextAvailableInPool_ranges_in_order_witness:
  "FindNextAvailableInPool ParseCIDRv4 demo_pool demo_full 25
     = Inr \<lparr>IP = [10, 0, 1, 0], Mask = \<lparr>Ones = 25, Bits = 32\<rparr>\<rparr>
   \<and> FindNextAvailableInPool ParseCIDRv4 demo_pool demo_full 16
     = Inl (NoBlockInPoolTried 16 2 [(''10.0.0.0/24'', PrefixLargerThanContainer 16 24),
                                     (''10.0.1.0/24'', PrefixLargerThanContainer 16 24)])"
proof -
  note t = FindNextAvailableInPool_ranges_in_order [of demo_pool ParseCIDRv4 demo_full]
  have s: "PoolCIDR demo_pool = [''10.0.0.0/24''] @ ''10.0.1.0/24'' # []"
    by (simp add: demo_pool_def)
  have "FindNextAvailableInPool ParseCIDRv4 demo_pool demo_full 25
     = Inr \<lparr>IP = [10, 0, 1, 0], Mask = \<lparr>Ones = 25, Bits = 32\<rparr>\<rparr>"
    using t [of 25, THEN conjunct1, rule_format,
             of "[''10.0.0.0/24'']" "''10.0.1.0/24''" "[]"]
      s demo_first_range_full demo_second_range_free
    by simp
  moreover have "FindNextAvailableInPool ParseCIDRv4 demo_pool demo_full 16
     = Inl (NoBlockInPoolTried 16 2 [(''10.0.0.0/24'', PrefixLargerThanContainer 16 24),
                                     (''10.0.1.0/24'', PrefixLargerThanContainer 16 24)])"
    using t [of 16, THEN conjunct2, THEN conjunct2] demo_too_large
    by (simp add: demo_pool_def)
  ultimately show ?thesis by simp
qed

end
